theory Spec2Isabelle
  imports Main "HOL-Library.Sublist" "HOL-Library.Multiset"
begin

section \<open>Strings\<close>

text \<open>
  Paths, actions and configuration entries are Python \<open>str\<close> values; they are modelled as
  HOL strings. \<open>str.lower()\<close> is modelled on the ASCII letters (\<open>A\<close>..\<open>Z\<close> are moved to
  \<open>a\<close>..\<open>z\<close>, every other character is kept).
\<close>

text \<open>The backslash of Windows paths, which has no literal form inside a HOL string.\<close>

definition bsl :: string where
  "bsl = [CHR 0x5C]"

definition lower_char :: "char \<Rightarrow> char" where
  "lower_char c =
     (let n = (of_char c :: nat) in if 65 \<le> n \<and> n \<le> 90 then char_of (n + 32) else c)"

definition lower :: "string \<Rightarrow> string" where
  "lower s = map lower_char s"

text \<open>Python's \<open>needle in hay\<close> on strings: \<open>needle\<close> occurs in \<open>hay\<close> as a contiguous run.\<close>

definition str_in :: "string \<Rightarrow> string \<Rightarrow> bool" where
  "str_in needle hay = sublist needle hay"

section \<open>Configuration (\<open>MonitorService.load_config\<close>)\<close>

record risk_settings =
  high_risk_extensions :: "string list"
  high_risk_actions :: "string list"
  sensitive_paths :: "string list"

record config =
  watch_paths :: "string list"
  excluded_extensions :: "string list"
  excluded_paths :: "string list"
  risk_settings :: risk_settings
  sync_interval :: nat
  max_buffer_size :: nat

definition default_config :: config where
  "default_config =
     \<lparr> watch_paths = [''C:'' @ bsl @ ''Users'' @ bsl @ ''Chandan Deshmukh'' @ bsl @ ''Desktop'',
                       ''C:'' @ bsl @ ''Users'' @ bsl @ ''Chandan Deshmukh'' @ bsl @ ''Documents''],
       excluded_extensions = [''.tmp'', ''.log'', ''.pyc''],
       excluded_paths = [''__pycache__'', ''node_modules'', ''.git''],
       risk_settings =
         \<lparr> high_risk_extensions = [''.exe'', ''.dll'', ''.sys'', ''.bat'', ''.cmd'', ''.ps1''],
           high_risk_actions = [''DELETE'', ''MOVE''],
           sensitive_paths = [''system32'', ''windows'', ''program files''] \<rparr>,
       sync_interval = 5,
       max_buffer_size = 100 \<rparr>"

section \<open>Risk classification\<close>

datatype risk = Low | Medium | High

text \<open>\<open>MonitorService.assess_risk_level\<close> (monitor_service.py).\<close>

definition ms_assess_risk_level :: "config \<Rightarrow> string \<Rightarrow> string \<Rightarrow> risk" where
  "ms_assess_risk_level cfg file_path action =
     (let file_path_lower = lower file_path in
      if action \<in> set (high_risk_actions (risk_settings cfg)) then High
      else if list_ex (\<lambda>ext. str_in ext file_path_lower)
                (high_risk_extensions (risk_settings cfg)) then High
      else if list_ex (\<lambda>path. str_in path file_path_lower)
                (sensitive_paths (risk_settings cfg)) then High
      else if str_in ''documents'' file_path_lower \<or> str_in ''desktop'' file_path_lower
        then Medium
      else Low)"

text \<open>\<open>FileActivityMonitor.assess_risk_level\<close> (file_monitor.py), with its built-in lists.\<close>

definition high_risk_paths :: "string list" where
  "high_risk_paths =
     [''system32'', ''windows'', ''program files'', ''programdata'',
      ''users'' @ bsl @ ''all users'', ''boot'', ''config'']"

definition sensitive_extensions :: "string list" where
  "sensitive_extensions = [''.exe'', ''.dll'', ''.sys'', ''.bat'', ''.cmd'', ''.ps1'', ''.reg'']"

definition fam_assess_risk_level :: "string \<Rightarrow> string \<Rightarrow> risk" where
  "fam_assess_risk_level file_path action =
     (let file_path_lower = lower file_path in
      if list_ex (\<lambda>path. str_in path file_path_lower) high_risk_paths then High
      else if list_ex (\<lambda>ext. str_in ext file_path_lower) sensitive_extensions then High
      else if action \<in> set [''DELETE'', ''MOVE''] then High
      else if str_in ''documents'' file_path_lower \<or> str_in ''desktop'' file_path_lower
        then Medium
      else Low)"

text \<open>
  The classifier as the specification words it: five rules, first match wins, over a
  policy of three lists.
\<close>

definition classify :: "string \<Rightarrow> string \<Rightarrow> risk_settings \<Rightarrow> risk" where
  "classify path action policy =
     (if action \<in> set (high_risk_actions policy) then High
      else if \<exists>entry \<in> set (sensitive_paths policy). sublist entry (lower path) then High
      else if \<exists>entry \<in> set (high_risk_extensions policy). sublist entry (lower path) then High
      else if sublist ''documents'' (lower path) \<or> sublist ''desktop'' (lower path) then Medium
      else Low)"

text \<open>The lists built into \<open>FileActivityMonitor.assess_risk_level\<close>, read as a policy.\<close>

definition fam_policy :: risk_settings where
  "fam_policy =
     \<lparr> high_risk_extensions = sensitive_extensions,
       high_risk_actions = [''DELETE'', ''MOVE''],
       sensitive_paths = high_risk_paths \<rparr>"

section \<open>The shared store\<close>

text \<open>
  The SQLite tables of \<open>MonitorService.init_database\<close>, one record per row and one list
  per table, in rowid order. The \<open>created_at\<close> columns, which no modelled statement reads,
  are left out. A TEXT column whose values are one of a fixed set of literals in the code
  is a datatype.
\<close>

datatype alert_status = New | Acknowledged | Resolved | Dismissed | UnderInvestigation

text \<open>
  Signal payloads are JSON values. The \<open>data\<close> column holds the text \<open>json.dumps\<close> made of
  a value and is read back with \<open>json.loads\<close>; it is modelled by the value itself.
\<close>

datatype json =
  JNull | JBool bool | JNumber int | JString string
  | JArray "json list" | JObject "(string \<times> json) list"

text \<open>Python truthiness of a payload (\<open>json.dumps(data) if data else None\<close>).\<close>

fun truthy :: "json \<Rightarrow> bool" where
  "truthy JNull = False"
| "truthy (JBool b) = b"
| "truthy (JNumber n) = (n \<noteq> 0)"
| "truthy (JString s) = (s \<noteq> [])"
| "truthy (JArray xs) = (xs \<noteq> [])"
| "truthy (JObject kvs) = (kvs \<noteq> [])"

record activity_row =
  act_id :: nat
  act_timestamp :: string
  act_username :: string
  act_process_name :: string
  act_process_id :: nat
  act_action :: string
  act_file_path :: string
  act_file_size :: nat
  act_risk_level :: risk

record alert_row =
  alert_id :: nat
  alert_timestamp :: string
  alert_username :: string
  alert_description :: string
  alert_file_path :: string
  alert_risk_level :: risk
  alert_status :: alert_status

record signal_row =
  sig_id :: nat
  sig_type :: string
  sig_data :: "json option"
  sig_timestamp :: nat
  processed :: bool

record status_row =
  st_id :: nat
  st_status :: string
  st_last_update :: string
  st_monitored_paths :: "string list"
  st_total_activities :: nat
  st_alerts_count :: nat

text \<open>
  The \<open>seq_\<close> fields are the AUTOINCREMENT counters (\<open>sqlite_sequence\<close>): the largest rowid
  a table has ever held.
\<close>

record store =
  service_status :: "status_row list"
  file_activities :: "activity_row list"
  alerts :: "alert_row list"
  live_signals :: "signal_row list"
  seq_file_activities :: nat
  seq_alerts :: nat
  seq_live_signals :: nat

definition empty_store :: store where
  "empty_store =
     \<lparr> service_status = [], file_activities = [], alerts = [], live_signals = [],
       seq_file_activities = 0, seq_alerts = 0, seq_live_signals = 0 \<rparr>"

text \<open>The rowid of an AUTOINCREMENT insert: one more than every rowid present or past.\<close>

definition next_rowid :: "nat \<Rightarrow> nat list \<Rightarrow> nat" where
  "next_rowid seq ids = Suc (fold max ids seq)"

text \<open>
  A write fails when its transaction cannot get the write lock. Every connection is
  opened by \<open>sqlite3.connect\<close> with the default timeout, so SQLite keeps trying for that
  time (5 seconds) and raises \<open>OperationalError\<close> ("database is locked") only when the
  lock is still busy at its end. \<open>lock_busy\<close> lists, for the successive transactions that
  write, how that wait ends (\<open>True\<close>: busy to the end; past the end of the list the lock
  is got); each such transaction consumes one entry. How long a wait lasts and how often
  SQLite tries in it is not part of the model.

  \<open>db_file_exists\<close> is what \<open>os.path.exists\<close> answers for the database file, and
  \<open>variable_limit\<close> is the number of \<open>?\<close> parameters the SQLite library accepts in one
  statement (32766; 999 before version 3.32): a statement with more is refused with
  \<open>OperationalError\<close> ("too many SQL variables").
\<close>

datatype error = StoreBusy

record world =
  db :: store
  db_file_exists :: bool
  lock_busy :: "bool list"
  variable_limit :: nat

definition acquire_write_lock :: "world \<Rightarrow> bool \<times> world" where
  "acquire_write_lock w =
     (case lock_busy w of
        [] \<Rightarrow> (True, w)
      | b # bs \<Rightarrow> (\<not> b, w\<lparr>lock_busy := bs\<rparr>))"

text \<open>
  While a connection holds the write lock in a transaction it has not yet committed, no
  other connection gets the lock, however long it waits: the next wait ends busy.
\<close>

definition hold_write_lock :: "world \<Rightarrow> world" where
  "hold_write_lock w = w\<lparr>lock_busy := True # lock_busy w\<rparr>"

subsection \<open>Statements\<close>

definition insert_signal :: "string \<Rightarrow> json option \<Rightarrow> nat \<Rightarrow> store \<Rightarrow> store" where
  "insert_signal signal_type data now st =
     (let rowid = next_rowid (seq_live_signals st) (map sig_id (live_signals st)) in
      st\<lparr> live_signals := live_signals st @
             [\<lparr> sig_id = rowid, sig_type = signal_type, sig_data = data,
                sig_timestamp = now, processed = False \<rparr>],
          seq_live_signals := rowid \<rparr>)"

definition insert_activity ::
  "string \<Rightarrow> string \<Rightarrow> string \<Rightarrow> nat \<Rightarrow> string \<Rightarrow> string \<Rightarrow> nat \<Rightarrow> risk \<Rightarrow> store \<Rightarrow> store"
where
  "insert_activity timestamp username process_name process_id action file_path file_size
       risk_level st =
     (let rowid = next_rowid (seq_file_activities st) (map act_id (file_activities st)) in
      st\<lparr> file_activities := file_activities st @
             [\<lparr> act_id = rowid, act_timestamp = timestamp, act_username = username,
                act_process_name = process_name, act_process_id = process_id,
                act_action = action, act_file_path = file_path, act_file_size = file_size,
                act_risk_level = risk_level \<rparr>],
          seq_file_activities := rowid \<rparr>)"

text \<open>The alert INSERT names no status: the column default \<open>'New'\<close> applies.\<close>

definition insert_alert :: "string \<Rightarrow> string \<Rightarrow> string \<Rightarrow> string \<Rightarrow> risk \<Rightarrow> store \<Rightarrow> store"
where
  "insert_alert timestamp username description file_path risk_level st =
     (let rowid = next_rowid (seq_alerts st) (map alert_id (alerts st)) in
      st\<lparr> alerts := alerts st @
             [\<lparr> alert_id = rowid, alert_timestamp = timestamp, alert_username = username,
                alert_description = description, alert_file_path = file_path,
                alert_risk_level = risk_level, alert_status = New \<rparr>],
          seq_alerts := rowid \<rparr>)"

text \<open>\<open>INSERT OR REPLACE\<close> with primary key 1: the row with that key, if any, gives way.\<close>

definition replace_service_status :: "string \<Rightarrow> string \<Rightarrow> string list \<Rightarrow> store \<Rightarrow> store" where
  "replace_service_status status now paths st =
     st\<lparr> service_status := filter (\<lambda>r. st_id r \<noteq> 1) (service_status st) @
            [\<lparr> st_id = 1, st_status = status, st_last_update = now,
               st_monitored_paths = paths,
               st_total_activities = length (file_activities st),
               st_alerts_count = length (filter (\<lambda>a. alert_status a = New) (alerts st)) \<rparr>] \<rparr>"

definition update_alert_status :: "alert_status \<Rightarrow> nat \<Rightarrow> store \<Rightarrow> store" where
  "update_alert_status new_status aid st =
     st\<lparr> alerts := map (\<lambda>a. if alert_id a = aid then a\<lparr>alert_status := new_status\<rparr> else a)
                      (alerts st) \<rparr>"

definition delete_alert :: "nat \<Rightarrow> store \<Rightarrow> store" where
  "delete_alert aid st = st\<lparr> alerts := filter (\<lambda>a. alert_id a \<noteq> aid) (alerts st) \<rparr>"

definition mark_processed :: "nat list \<Rightarrow> store \<Rightarrow> store" where
  "mark_processed ids st =
     st\<lparr> live_signals := map (\<lambda>r. if sig_id r \<in> set ids then r\<lparr>processed := True\<rparr> else r)
                            (live_signals st) \<rparr>"

section \<open>The monitoring service (monitor_service.py)\<close>

text \<open>\<open>MonitorService.update_service_status\<close>.\<close>

definition update_service_status ::
  "config \<Rightarrow> string \<Rightarrow> string \<Rightarrow> world \<Rightarrow> (error + unit) \<times> world" where
  "update_service_status cfg status now w =
     (case acquire_write_lock w of
        (False, w') \<Rightarrow> (Inl StoreBusy, w')
      | (True, w') \<Rightarrow>
          (Inr (), w'\<lparr>db := replace_service_status status now (watch_paths cfg) (db w')\<rparr>))"


text \<open>\<open>MonitorService.send_signal\<close>; \<open>now\<close> is the store's CURRENT_TIMESTAMP.\<close>

definition send_signal :: "string \<Rightarrow> json \<Rightarrow> nat \<Rightarrow> world \<Rightarrow> (error + unit) \<times> world" where
  "send_signal signal_type data now w =
     (case acquire_write_lock w of
        (False, w') \<Rightarrow> (Inl StoreBusy, w')
      | (True, w') \<Rightarrow>
          (Inr (), w'\<lparr>db := insert_signal signal_type (if truthy data then Some data else None)
                               now (db w')\<rparr>))"

text \<open>
  What \<open>log_activity\<close> takes from its surroundings: the process (psutil, or the
  \<open>Unknown\<close> defaults), the formatted local time, and the store's clock at the two
  signal inserts.
\<close>

record env =
  username :: string
  process_name :: string
  process_id :: nat
  timestamp :: string
  alert_signal_time :: nat
  activity_signal_time :: nat

definition risk_text :: "risk \<Rightarrow> string" where
  "risk_text r = (case r of Low \<Rightarrow> ''Low'' | Medium \<Rightarrow> ''Medium'' | High \<Rightarrow> ''High'')"

text \<open>
  \<open>MonitorService.log_activity\<close>. The two row inserts belong to one transaction of the
  connection \<open>conn\<close>, which is committed only after \<open>send_signal('new_alert', ...)\<close> has
  returned. \<open>send_signal\<close> writes through a connection of its own, so it runs while
  \<open>conn\<close> holds the write lock. An exception before the commit leaves the store as it
  was. \<open>basename\<close> stands for \<open>os.path.basename\<close>.
\<close>

definition ms_log_activity ::
  "config \<Rightarrow> (string \<Rightarrow> string) \<Rightarrow> env \<Rightarrow> string \<Rightarrow> string \<Rightarrow> nat \<Rightarrow> world
     \<Rightarrow> (error + unit) \<times> world" where
  "ms_log_activity cfg basename e action file_path file_size w =
     (let risk_level = ms_assess_risk_level cfg file_path action in
      case acquire_write_lock w of
        (False, w1) \<Rightarrow> (Inl StoreBusy, w1)
      | (True, w1) \<Rightarrow>
          let before = db w1;
              activity_id = next_rowid (seq_file_activities before)
                              (map act_id (file_activities before));
              w2 = w1\<lparr>db := insert_activity (timestamp e) (username e) (process_name e)
                               (process_id e) action file_path file_size risk_level before\<rparr>;
              activity_signal = JObject
                [(''id'', JNumber (int activity_id)), (''action'', JString action),
                 (''file_path'', JString (basename file_path)),
                 (''risk_level'', JString (risk_text risk_level)),
                 (''timestamp'', JString (timestamp e))]
          in
          if risk_level = High then
            let description = ''High-risk '' @ lower action @ '' operation detected'';
                w3 = w2\<lparr>db := insert_alert (timestamp e) (username e) description file_path
                                 High (db w2)\<rparr>
            in
            (case send_signal ''new_alert''
                    (JObject [(''description'', JString description),
                              (''file_path'', JString file_path),
                              (''risk_level'', JString ''High''),
                              (''timestamp'', JString (timestamp e))])
                    (alert_signal_time e) (hold_write_lock w3) of
               (Inl err, w4) \<Rightarrow> (Inl err, w4\<lparr>db := before\<rparr>)
             | (Inr u, w4) \<Rightarrow>
                 send_signal ''new_activity'' activity_signal (activity_signal_time e) w4)
          else send_signal ''new_activity'' activity_signal (activity_signal_time e) w2)"

text \<open>\<open>MonitorService.should_ignore_file\<close>; \<open>db_path\<close> is the service's own database.\<close>

definition ms_should_ignore_file :: "config \<Rightarrow> string \<Rightarrow> string \<Rightarrow> bool" where
  "ms_should_ignore_file cfg db_path file_path =
     (let file_path_lower = lower file_path in
      if list_ex (\<lambda>ext. str_in ext file_path_lower) (excluded_extensions cfg) then True
      else if list_ex (\<lambda>path. str_in path file_path_lower) (excluded_paths cfg) then True
      else if str_in db_path file_path then True
      else False)"

section \<open>The file-system event handler (file_monitor.py)\<close>

text \<open>\<open>FileActivityMonitor.should_ignore_file\<close>.\<close>

definition ignore_patterns :: "string list" where
  "ignore_patterns =
     [''file_activity.db'', ''file_activity.db-journal'', ''file_activity.db-wal'',
      ''.tmp'', ''.log'', ''__pycache__'', ''.pyc'']"

definition fam_should_ignore_file :: "string \<Rightarrow> bool" where
  "fam_should_ignore_file file_path =
     (let file_path_lower = lower file_path in
      list_ex (\<lambda>pattern. str_in pattern file_path_lower) ignore_patterns)"

text \<open>
  \<open>FileActivityMonitor.log_activity\<close>, on its own database (of which only the
  \<open>file_activities\<close> and \<open>alerts\<close> tables exist).
\<close>

definition fam_log_activity ::
  "(string \<Rightarrow> string) \<Rightarrow> env \<Rightarrow> string \<Rightarrow> string \<Rightarrow> nat \<Rightarrow> world \<Rightarrow> (error + unit) \<times> world"
where
  "fam_log_activity basename e action file_path file_size w =
     (if fam_should_ignore_file file_path then (Inr (), w)
      else
        let risk_level = fam_assess_risk_level file_path action in
        case acquire_write_lock w of
          (False, w1) \<Rightarrow> (Inl StoreBusy, w1)
        | (True, w1) \<Rightarrow>
            let w2 = w1\<lparr>db := insert_activity (timestamp e) (username e) (process_name e)
                                 (process_id e) action file_path file_size risk_level (db w1)\<rparr>
            in
            if risk_level = High then
              let description = ''High-risk '' @ lower action @ '' operation detected on ''
                                  @ basename file_path
              in (Inr (), w2\<lparr>db := insert_alert (timestamp e) (username e) description
                                       file_path High (db w2)\<rparr>)
            else (Inr (), w2))"

text \<open>
  The watchdog callbacks. They call \<open>self.should_ignore_file\<close> and \<open>self.log_activity\<close>,
  which \<open>MonitorService.start_monitoring\<close> replaces on the handler instance by its own;
  so both are arguments here. \<open>getsize\<close> is \<open>os.path.getsize\<close>, \<open>None\<close> when it raises.
\<close>

record fs_event =
  is_directory :: bool
  src_path :: string
  dest_path :: string

type_synonym logger = "string \<Rightarrow> string \<Rightarrow> nat \<Rightarrow> world \<Rightarrow> (error + unit) \<times> world"

definition on_created ::
  "(string \<Rightarrow> bool) \<Rightarrow> logger \<Rightarrow> (string \<Rightarrow> nat option) \<Rightarrow> fs_event \<Rightarrow> world
     \<Rightarrow> (error + unit) \<times> world" where
  "on_created should_ignore_file log_activity getsize event w =
     (if \<not> is_directory event \<and> \<not> should_ignore_file (src_path event) then
        let file_size = (case getsize (src_path event) of Some n \<Rightarrow> n | None \<Rightarrow> 0)
        in log_activity ''CREATE'' (src_path event) file_size w
      else (Inr (), w))"

definition on_modified ::
  "(string \<Rightarrow> bool) \<Rightarrow> logger \<Rightarrow> (string \<Rightarrow> nat option) \<Rightarrow> fs_event \<Rightarrow> world
     \<Rightarrow> (error + unit) \<times> world" where
  "on_modified should_ignore_file log_activity getsize event w =
     (if \<not> is_directory event \<and> \<not> should_ignore_file (src_path event) then
        let file_size = (case getsize (src_path event) of Some n \<Rightarrow> n | None \<Rightarrow> 0)
        in log_activity ''MODIFY'' (src_path event) file_size w
      else (Inr (), w))"

definition on_deleted ::
  "(string \<Rightarrow> bool) \<Rightarrow> logger \<Rightarrow> fs_event \<Rightarrow> world \<Rightarrow> (error + unit) \<times> world" where
  "on_deleted should_ignore_file log_activity event w =
     (if \<not> is_directory event \<and> \<not> should_ignore_file (src_path event) then
        log_activity ''DELETE'' (src_path event) 0 w
      else (Inr (), w))"

definition on_moved ::
  "(string \<Rightarrow> bool) \<Rightarrow> logger \<Rightarrow> fs_event \<Rightarrow> world \<Rightarrow> (error + unit) \<times> world" where
  "on_moved should_ignore_file log_activity event w =
     (if \<not> is_directory event \<and> \<not> should_ignore_file (src_path event) then
        log_activity ''MOVE'' (src_path event @ '' -> '' @ dest_path event) 0 w
      else (Inr (), w))"

datatype event_kind = Created | Modified | Deleted | Moved

definition dispatch ::
  "(string \<Rightarrow> bool) \<Rightarrow> logger \<Rightarrow> (string \<Rightarrow> nat option) \<Rightarrow> event_kind \<Rightarrow> fs_event \<Rightarrow> world
     \<Rightarrow> (error + unit) \<times> world" where
  "dispatch should_ignore_file log_activity getsize kind event w =
     (case kind of
        Created \<Rightarrow> on_created should_ignore_file log_activity getsize event w
      | Modified \<Rightarrow> on_modified should_ignore_file log_activity getsize event w
      | Deleted \<Rightarrow> on_deleted should_ignore_file log_activity event w
      | Moved \<Rightarrow> on_moved should_ignore_file log_activity event w)"

text \<open>
  The two pipelines: the handler as \<open>MonitorService.start_monitoring\<close> wires it, and
  the handler on its own (as app.py runs it).
\<close>

record service =
  svc_config :: config
  svc_db_path :: string
  svc_basename :: "string \<Rightarrow> string"
  svc_getsize :: "string \<Rightarrow> nat option"

definition ms_dispatch ::
  "service \<Rightarrow> env \<Rightarrow> event_kind \<Rightarrow> fs_event \<Rightarrow> world \<Rightarrow> (error + unit) \<times> world" where
  "ms_dispatch svc e kind event w =
     dispatch (ms_should_ignore_file (svc_config svc) (svc_db_path svc))
       (ms_log_activity (svc_config svc) (svc_basename svc) e) (svc_getsize svc) kind event w"

definition fam_dispatch ::
  "service \<Rightarrow> env \<Rightarrow> event_kind \<Rightarrow> fs_event \<Rightarrow> world \<Rightarrow> (error + unit) \<times> world" where
  "fam_dispatch svc e kind event w =
     dispatch fam_should_ignore_file (fam_log_activity (svc_basename svc) e)
       (svc_getsize svc) kind event w"

section \<open>The readers (web_interface.py, app.py)\<close>

record signal_msg =
  msg_id :: nat
  msg_signal_type :: string
  msg_data :: "json option"
  msg_timestamp :: nat

definition signal_msg_of :: "signal_row \<Rightarrow> signal_msg" where
  "signal_msg_of row =
     \<lparr> msg_id = sig_id row, msg_signal_type = sig_type row, msg_data = sig_data row,
       msg_timestamp = sig_timestamp row \<rparr>"

text \<open>
  \<open>WebInterface.get_live_signals\<close>. Without the database file it returns the empty
  list. The UPDATE binds one parameter for each id read; an exception of the UPDATE (more
  parameters than the library accepts, or the write lock busy) is caught and the empty
  list returned.
\<close>

definition get_live_signals :: "world \<Rightarrow> signal_msg list \<times> world" where
  "get_live_signals w =
     (if \<not> db_file_exists w then ([], w)
      else
        let rows = sort_key sig_timestamp (filter (\<lambda>r. \<not> processed r) (live_signals (db w)));
            signals = map signal_msg_of rows;
            signal_ids = map sig_id rows
        in
        if signal_ids \<noteq> [] then
          (if variable_limit w < length signal_ids then ([], w)
           else
             case acquire_write_lock w of
               (False, w') \<Rightarrow> ([], w')
             | (True, w') \<Rightarrow> (signals, w'\<lparr>db := mark_processed signal_ids (db w')\<rparr>))
        else (signals, w))"

text \<open>\<open>api_alert_action\<close> of web_interface.py.\<close>

definition status_map :: "(string \<times> alert_status) list" where
  "status_map =
     [(''acknowledge'', Acknowledged), (''resolve'', Resolved), (''dismiss'', Dismissed),
      (''investigate'', UnderInvestigation)]"

record response =
  success :: bool
  message :: string
  new_status :: "alert_status option"

definition api_alert_action :: "nat \<Rightarrow> string \<Rightarrow> world \<Rightarrow> response \<times> world" where
  "api_alert_action aid action w =
     (if \<not> db_file_exists w then
        (\<lparr> success = False, message = ''Monitor service not available'', new_status = None \<rparr>, w)
      else
        let new_st = (case map_of status_map action of Some s \<Rightarrow> s | None \<Rightarrow> New) in
        case acquire_write_lock w of
          (False, w') \<Rightarrow>
            (\<lparr> success = False, message = ''database is locked'', new_status = None \<rparr>, w')
        | (True, w') \<Rightarrow>
            (\<lparr> success = True, message = ''Alert '' @ action @ ''d successfully'',
               new_status = Some new_st \<rparr>,
             w'\<lparr>db := update_alert_status new_st aid (db w')\<rparr>))"

text \<open>
  The alert routes of app.py, on the database of \<open>FileActivityMonitor\<close>; each returns
  its \<open>success\<close> flag.
\<close>

definition acknowledge_alert :: "nat \<Rightarrow> world \<Rightarrow> bool \<times> world" where
  "acknowledge_alert aid w =
     (case acquire_write_lock w of
        (False, w') \<Rightarrow> (False, w')
      | (True, w') \<Rightarrow> (True, w'\<lparr>db := update_alert_status Acknowledged aid (db w')\<rparr>))"

definition resolve_alert :: "nat \<Rightarrow> world \<Rightarrow> bool \<times> world" where
  "resolve_alert aid w =
     (case acquire_write_lock w of
        (False, w') \<Rightarrow> (False, w')
      | (True, w') \<Rightarrow> (True, w'\<lparr>db := update_alert_status Resolved aid (db w')\<rparr>))"

definition dismiss_alert :: "nat \<Rightarrow> world \<Rightarrow> bool \<times> world" where
  "dismiss_alert aid w =
     (case acquire_write_lock w of
        (False, w') \<Rightarrow> (False, w')
      | (True, w') \<Rightarrow> (True, w'\<lparr>db := delete_alert aid (db w')\<rparr>))"

section \<open>Histories of the shared store\<close>

text \<open>
  The operations that reach the database of the monitoring service, from the service
  (heartbeat, signal, logged activity, dispatched event) and from the web interface
  (signal consumption, alert action). A history is a list of them, run in order; the
  signals each step hands to its caller are collected.
\<close>

datatype op =
  Tick string string
  | Send string json nat
  | Log env string string nat
  | Event env event_kind fs_event
  | Consume
  | AlertAction nat string

definition step :: "service \<Rightarrow> op \<Rightarrow> world \<Rightarrow> signal_msg list \<times> world" where
  "step svc x w =
     (case x of
        Tick status now \<Rightarrow> ([], snd (update_service_status (svc_config svc) status now w))
      | Send signal_type data now \<Rightarrow> ([], snd (send_signal signal_type data now w))
      | Log e action file_path file_size \<Rightarrow>
          ([], snd (ms_log_activity (svc_config svc) (svc_basename svc) e action file_path
                      file_size w))
      | Event e kind event \<Rightarrow> ([], snd (ms_dispatch svc e kind event w))
      | Consume \<Rightarrow> get_live_signals w
      | AlertAction aid action \<Rightarrow> ([], snd (api_alert_action aid action w)))"

fun run :: "service \<Rightarrow> op list \<Rightarrow> world \<Rightarrow> signal_msg list \<times> world" where
  "run svc [] w = ([], w)"
| "run svc (x # xs) w =
     (case step svc x w of
        (out, w') \<Rightarrow> (case run svc xs w' of (outs, w'') \<Rightarrow> (out @ outs, w'')))"

section \<open>Predicates on the store\<close>

text \<open>
  Signal \<open>i\<close> is marked: the queue holds a row with that id, and every row with that id
  has \<open>processed\<close> set.
\<close>

definition marked :: "nat \<Rightarrow> store \<Rightarrow> bool" where
  "marked i st =
     (list_ex (\<lambda>r. sig_id r = i) (live_signals st)
      \<and> list_all (\<lambda>r. sig_id r = i \<longrightarrow> processed r) (live_signals st))"



section \<open>Sample inputs\<close>

text \<open>Concrete values at which the theorems below are instantiated.\<close>

definition sample_env :: env where
  "sample_env =
     \<lparr> username = ''alice'', process_name = ''python.exe'', process_id = 4321,
       timestamp = ''2024-05-01 12:00:00'', alert_signal_time = 7, activity_signal_time = 8 \<rparr>"

definition sample_service :: service where
  "sample_service =
     \<lparr> svc_config = default_config, svc_db_path = ''monitor_data.db'',
       svc_basename = (\<lambda>p. p), svc_getsize = (\<lambda>p. None) \<rparr>"

definition idle_world :: world where
  "idle_world =
     \<lparr> db = empty_store, db_file_exists = True, lock_busy = [], variable_limit = 32766 \<rparr>"

definition queued_world :: world where
  "queued_world =
     idle_world\<lparr> db := empty_store
       \<lparr> live_signals :=
           [\<lparr> sig_id = 1, sig_type = ''new_activity'', sig_data = None, sig_timestamp = 9,
              processed = False \<rparr>,
            \<lparr> sig_id = 2, sig_type = ''new_alert'', sig_data = None, sig_timestamp = 3,
              processed = False \<rparr>,
            \<lparr> sig_id = 3, sig_type = ''new_activity'', sig_data = None, sig_timestamp = 1,
              processed = True \<rparr>],
         seq_live_signals := 3 \<rparr> \<rparr>"

definition alerted_world :: world where
  "alerted_world =
     idle_world\<lparr> db := empty_store
       \<lparr> alerts :=
           [\<lparr> alert_id = 1, alert_timestamp = ''2024-05-01 12:00:00'',
              alert_username = ''alice'',
              alert_description = ''High-risk delete operation detected'',
              alert_file_path = ''/home/user/a.txt'', alert_risk_level = High,
              alert_status = Resolved \<rparr>],
         seq_alerts := 1 \<rparr> \<rparr>"


text \<open>A queue of 32767 signals that no reader has consumed yet.\<close>

definition flooded_world :: world where
  "flooded_world =
     idle_world\<lparr> db := empty_store
       \<lparr> live_signals :=
           map (\<lambda>i. \<lparr> sig_id = i, sig_type = ''new_activity'', sig_data = None,
                       sig_timestamp = i, processed = False \<rparr>) [1..<32768],
         seq_live_signals := 32767 \<rparr> \<rparr>"

text \<open>A policy whose excluded extension is written in upper case.\<close>

definition upper_case_service :: service where
  "upper_case_service =
     sample_service\<lparr> svc_config := default_config\<lparr> excluded_extensions := [''.TMP''] \<rparr> \<rparr>"

text \<open>
  \<open>os.path.basename\<close> as Windows has it, for a path with a drive letter or without a
  drive: what follows the last slash or backslash.
\<close>

definition ntpath_basename :: "string \<Rightarrow> string" where
  "ntpath_basename p =
     (let rest = (if 2 \<le> length p \<and> p ! 1 = CHR '':'' then drop 2 p else p)
      in rev (takeWhile (\<lambda>c. c \<noteq> CHR ''/'' \<and> c \<noteq> CHR 0x5C) (rev rest)))"

definition evil_sys :: string where
  "evil_sys = ''C:'' @ bsl @ ''Windows'' @ bsl @ ''System32'' @ bsl @ ''drivers'' @ bsl
                @ ''evil.sys''"

section \<open>Properties of the classifier\<close>

lemma lower_char_idem: "lower_char (lower_char c) = lower_char c"
proof -
  have "of_char (char_of (of_char c + 32 :: nat)) = (of_char c + 32 :: nat)"
    if "(of_char c :: nat) \<le> 90"
    using that by (simp add: of_char_of)
  then show ?thesis
    by (auto simp: lower_char_def Let_def)
qed

lemma lower_idem: "lower (lower s) = lower s"
  by (simp add: lower_def lower_char_idem)

text \<open>
  C1. For every path and action the classifier returns High if the action is a high-risk
  action, else High if the lowercased path contains a sensitive-path entry, else High if
  it contains a high-risk extension entry, else Medium if it contains \<open>documents\<close> or
  \<open>desktop\<close>, else Low; the path is compared in lower case, and the result is a function
  of path, action and policy alone. Both classifiers of the source compute this function:
  the configured one on the configured policy, the built-in one on its built-in lists.
\<close>

theorem classifier_first_match:
  "ms_assess_risk_level cfg path action = classify path action (risk_settings cfg)
   \<and> fam_assess_risk_level path action = classify path action fam_policy
   \<and> ms_assess_risk_level cfg (lower path) action = ms_assess_risk_level cfg path action
   \<and> fam_assess_risk_level (lower path) action = fam_assess_risk_level path action"
  by (auto simp: ms_assess_risk_level_def fam_assess_risk_level_def classify_def fam_policy_def
      str_in_def list_ex_iff Let_def lower_idem)

theorem classifier_first_match_witness:
  "ms_assess_risk_level default_config ''/home/user/Desktop/notes.txt'' ''MODIFY'' = Medium
   \<and> classify ''/home/user/Desktop/notes.txt'' ''MODIFY'' (risk_settings default_config)
       = Medium"
proof -
  have "ms_assess_risk_level default_config ''/home/user/Desktop/notes.txt'' ''MODIFY'' = Medium"
    by code_simp
  with classifier_first_match [of default_config "''/home/user/Desktop/notes.txt''" "''MODIFY''"]
  show ?thesis by simp
qed

section \<open>Taking the write lock\<close>

lemma acquire_free:
  "True \<notin> set (lock_busy w) \<Longrightarrow>
     acquire_write_lock w = (True, w\<lparr>lock_busy := tl (lock_busy w)\<rparr>)"
  by (cases "lock_busy w") (auto simp: acquire_write_lock_def)

lemma acquire_busy:
  "lock_busy w = True # rest \<Longrightarrow> acquire_write_lock w = (False, w\<lparr>lock_busy := rest\<rparr>)"
  by (simp add: acquire_write_lock_def)

lemma free_tl: "True \<notin> set bs \<Longrightarrow> True \<notin> set (tl bs)"
  by (cases bs) auto

lemma send_signal_free:
  "True \<notin> set (lock_busy w) \<Longrightarrow>
     send_signal t d n w =
       (Inr (), w\<lparr>lock_busy := tl (lock_busy w),
                  db := insert_signal t (if truthy d then Some d else None) n (db w)\<rparr>)"
  by (simp add: send_signal_def acquire_free)

lemma insert_signal_tables [simp]:
  "alerts (insert_signal t d n st) = alerts st"
  "file_activities (insert_signal t d n st) = file_activities st"
  "service_status (insert_signal t d n st) = service_status st"
  by (simp_all add: insert_signal_def Let_def)

section \<open>Alerts and high-risk activities\<close>

lemma send_signal_held: "send_signal t d n (hold_write_lock w) = (Inl StoreBusy, w)"
  by (simp add: send_signal_def hold_write_lock_def acquire_write_lock_def)

text \<open>
  C2. For an event of risk level High \<open>MonitorService.log_activity\<close> persists no alert:
  it sends the alert signal through a second connection before it commits its own
  transaction, that write cannot get the lock, the exception leaves
  \<open>log_activity\<close> before the commit, and the store is as it was before the call, without
  the activity row, the alert row and any signal. This holds whatever the lock does for
  the rest.
\<close>

theorem high_risk_log_persists_nothing:
  assumes "ms_assess_risk_level cfg path action = High"
  shows "fst (ms_log_activity cfg bn e action path sz w) = Inl StoreBusy
     \<and> db (snd (ms_log_activity cfg bn e action path sz w)) = db w"
proof (cases "acquire_write_lock w")
  case (Pair ok w1)
  then have "db w1 = db w"
    by (auto simp: acquire_write_lock_def split: list.splits)
  with Pair assms show ?thesis
    by (cases ok) (simp_all add: ms_log_activity_def Let_def send_signal_held)
qed

theorem high_risk_log_persists_nothing_witness:
  "ms_assess_risk_level default_config ''/home/user/a.txt'' ''DELETE'' = High
   \<and> fst (ms_log_activity default_config (\<lambda>p. p) sample_env ''DELETE'' ''/home/user/a.txt'' 0
            idle_world) = Inl StoreBusy
   \<and> alerts (db (snd (ms_log_activity default_config (\<lambda>p. p) sample_env ''DELETE''
                ''/home/user/a.txt'' 0 idle_world))) = []
   \<and> file_activities (db (snd (ms_log_activity default_config (\<lambda>p. p) sample_env ''DELETE''
                ''/home/user/a.txt'' 0 idle_world))) = []"
proof -
  have high: "ms_assess_risk_level default_config ''/home/user/a.txt'' ''DELETE'' = High"
    by code_simp
  have none: "alerts (db idle_world) = []" "file_activities (db idle_world) = []"
    by (simp_all add: idle_world_def empty_store_def)
  from high_risk_log_persists_nothing [OF high, of "\<lambda>p. p" sample_env 0 idle_world] high none
  show ?thesis by simp
qed

text \<open>
  What the claim asks for is what the handler on its own does: with the write lock got,
  \<open>FileActivityMonitor.log_activity\<close> persists the activity and, exactly when the risk
  level is High, one alert with status New, risk level High and the path and actor of the
  activity row. \<open>MonitorService.log_activity\<close> does it for the lower levels only, where
  there is no alert to write.
\<close>

lemma fam_log_activity_alert:
  assumes "True \<notin> set (lock_busy w)" and "\<not> fam_should_ignore_file path"
  shows "\<exists>a. file_activities (db (snd (fam_log_activity bn e action path sz w)))
               = file_activities (db w) @ [a]
           \<and> act_username a = username e \<and> act_file_path a = path
           \<and> act_risk_level a = fam_assess_risk_level path action
           \<and> (if fam_assess_risk_level path action = High
               then \<exists>al. alerts (db (snd (fam_log_activity bn e action path sz w)))
                          = alerts (db w) @ [al]
                      \<and> alert_status al = New \<and> alert_risk_level al = High
                      \<and> alert_file_path al = act_file_path a
                      \<and> alert_username al = act_username a
               else alerts (db (snd (fam_log_activity bn e action path sz w)))
                          = alerts (db w))"
  using assms
  by (simp add: fam_log_activity_def Let_def acquire_free insert_activity_def insert_alert_def)

lemma ms_log_activity_lower_risk:
  assumes "True \<notin> set (lock_busy w)" and "ms_assess_risk_level cfg path action \<noteq> High"
  shows "\<exists>a. file_activities (db (snd (ms_log_activity cfg bn e action path sz w)))
               = file_activities (db w) @ [a]
           \<and> act_username a = username e \<and> act_file_path a = path
           \<and> act_risk_level a = ms_assess_risk_level cfg path action
           \<and> alerts (db (snd (ms_log_activity cfg bn e action path sz w))) = alerts (db w)"
  using assms
  by (simp add: ms_log_activity_def Let_def acquire_free send_signal_free free_tl
      insert_activity_def)

section \<open>Excluded paths\<close>

text \<open>
  C3 (as amended). An event whose lowercased path contains an excluded extension or an
  excluded path entry of the policy, the entry taken as it is written, is dropped by the
  pipeline, whatever its kind: the callback returns with the world unchanged, so no
  activity row, no alert and no signal is written. The same holds for the handler on its
  own with its built-in patterns.
\<close>

theorem excluded_event_dropped:
  "((\<exists>ext \<in> set (excluded_extensions (svc_config svc)). sublist ext (lower (src_path event)))
    \<or> (\<exists>p \<in> set (excluded_paths (svc_config svc)). sublist p (lower (src_path event)))
      \<longrightarrow> ms_dispatch svc e kind event w = (Inr (), w))
   \<and> ((\<exists>pat \<in> set ignore_patterns. sublist pat (lower (src_path event)))
      \<longrightarrow> fam_dispatch svc e kind event w = (Inr (), w))"
  by (cases kind)
     (auto simp: ms_dispatch_def fam_dispatch_def dispatch_def on_created_def on_modified_def
       on_deleted_def on_moved_def ms_should_ignore_file_def fam_should_ignore_file_def
       str_in_def list_ex_iff Let_def)

theorem excluded_event_dropped_witness:
  "(\<exists>ext \<in> set (excluded_extensions (svc_config sample_service)).
       sublist ext (lower ''/tmp/cache.tmp''))
   \<and> ms_dispatch sample_service sample_env Created
        \<lparr> is_directory = False, src_path = ''/tmp/cache.tmp'', dest_path = [] \<rparr> idle_world
       = (Inr (), idle_world)"
proof -
  have m: "\<exists>ext \<in> set (excluded_extensions (svc_config sample_service)).
       sublist ext (lower ''/tmp/cache.tmp'')"
    by code_simp
  with excluded_event_dropped [of sample_service
      "\<lparr> is_directory = False, src_path = ''/tmp/cache.tmp'', dest_path = [] \<rparr>"
      sample_env Created idle_world]
  show ?thesis by simp
qed

text \<open>
  C3 as stated fails: the path is put in lower case and the entry is not, so the excluded
  extension \<open>.TMP\<close> does not match the path \<open>/x/cache.TMP\<close>, which contains it letter
  for letter; the event is persisted and signalled.
\<close>

theorem excluded_event_counterexample:
  "''.TMP'' \<in> set (excluded_extensions (svc_config upper_case_service))
   \<and> sublist ''.TMP'' ''/x/cache.TMP''
   \<and> sublist (lower ''.TMP'') (lower ''/x/cache.TMP'')
   \<and> map act_file_path (file_activities (db (snd (ms_dispatch upper_case_service sample_env
          Created \<lparr> is_directory = False, src_path = ''/x/cache.TMP'', dest_path = [] \<rparr>
          idle_world)))) = [''/x/cache.TMP'']
   \<and> map sig_type (live_signals (db (snd (ms_dispatch upper_case_service sample_env
          Created \<lparr> is_directory = False, src_path = ''/x/cache.TMP'', dest_path = [] \<rparr>
          idle_world)))) = [''new_activity'']"
proof -
  have entry: "''.TMP'' \<in> set (excluded_extensions (svc_config upper_case_service))"
    by (simp add: upper_case_service_def)
  have verbatim: "sublist ''.TMP'' ''/x/cache.TMP''"
    by code_simp
  have folded: "sublist (lower ''.TMP'') (lower ''/x/cache.TMP'')"
    by code_simp
  have kept: "\<not> ms_should_ignore_file (svc_config upper_case_service)
                 (svc_db_path upper_case_service) ''/x/cache.TMP''"
    by code_simp
  have low: "ms_assess_risk_level (svc_config upper_case_service) ''/x/cache.TMP'' ''CREATE''
               = Low"
    by code_simp
  have size: "svc_getsize upper_case_service ''/x/cache.TMP'' = None"
    by (simp add: upper_case_service_def sample_service_def)
  have run: "db (snd (ms_dispatch upper_case_service sample_env Created
          \<lparr> is_directory = False, src_path = ''/x/cache.TMP'', dest_path = [] \<rparr> idle_world))
      = insert_signal ''new_activity''
          (Some (JObject
            [(''id'', JNumber 1), (''action'', JString ''CREATE''),
             (''file_path'', JString (svc_basename upper_case_service ''/x/cache.TMP'')),
             (''risk_level'', JString ''Low''),
             (''timestamp'', JString (timestamp sample_env))]))
          (activity_signal_time sample_env)
          (insert_activity (timestamp sample_env) (username sample_env)
             (process_name sample_env) (process_id sample_env) ''CREATE'' ''/x/cache.TMP'' 0 Low
             empty_store)"
    by (simp add: ms_dispatch_def dispatch_def on_created_def kept low size
        ms_log_activity_def send_signal_def acquire_write_lock_def idle_world_def Let_def
        risk_text_def next_rowid_def empty_store_def)
  show ?thesis
    unfolding run using entry verbatim folded
    by (simp add: insert_signal_def insert_activity_def empty_store_def Let_def)
qed

section \<open>What every operation does to the store\<close>

lemma signal_msg_of_id [simp]: "msg_id (signal_msg_of r) = sig_id r"
  and signal_msg_of_ts [simp]: "msg_timestamp (signal_msg_of r) = sig_timestamp r"
  by (simp_all add: signal_msg_of_def)

lemma acquire_db:
  "acquire_write_lock w = (b, w') \<Longrightarrow> db w' = db w \<and> db_file_exists w' = db_file_exists w"
  by (auto simp: acquire_write_lock_def split: list.splits)

text \<open>
  A property of the store that each statement keeps is kept by each operation, whatever
  the write lock does.
\<close>

lemma send_signal_keeps:
  assumes "P (db w)" and "\<And>t d n st. P st \<Longrightarrow> P (insert_signal t d n st)"
  shows "P (db (snd (send_signal t d n w)))"
proof (cases "acquire_write_lock w")
  case (Pair ok w1)
  then have "db w1 = db w" by (simp add: acquire_db)
  with Pair assms show ?thesis
    by (cases ok) (simp_all add: send_signal_def)
qed

lemma update_service_status_keeps:
  assumes "P (db w)" and "\<And>s n ps st. P st \<Longrightarrow> P (replace_service_status s n ps st)"
  shows "P (db (snd (update_service_status cfg s n w)))"
proof (cases "acquire_write_lock w")
  case (Pair ok w1)
  then have "db w1 = db w" by (simp add: acquire_db)
  with Pair assms show ?thesis
    by (cases ok) (simp_all add: update_service_status_def)
qed

lemma api_alert_action_keeps:
  assumes "P (db w)" and "\<And>s a st. P st \<Longrightarrow> P (update_alert_status s a st)"
  shows "P (db (snd (api_alert_action aid action w)))"
proof (cases "acquire_write_lock w")
  case (Pair ok w1)
  then have "db w1 = db w" by (simp add: acquire_db)
  with Pair assms show ?thesis
    by (cases ok) (simp_all add: api_alert_action_def Let_def)
qed

lemma get_live_signals_keeps:
  assumes "P (db w)" and "\<And>ids st. P st \<Longrightarrow> P (mark_processed ids st)"
  shows "P (db (snd (get_live_signals w)))"
proof (cases "acquire_write_lock w")
  case (Pair ok w1)
  then have "db w1 = db w" by (simp add: acquire_db)
  with Pair assms show ?thesis
    by (cases ok) (simp_all add: get_live_signals_def Let_def)
qed

lemma ms_log_activity_keeps:
  assumes P: "P (db w)"
    and sig: "\<And>t d n st. P st \<Longrightarrow> P (insert_signal t d n st)"
    and act: "\<And>ts u pn pid a f sz r st. P st \<Longrightarrow> P (insert_activity ts u pn pid a f sz r st)"
    and alr: "\<And>ts u ds f r st. P st \<Longrightarrow> P (insert_alert ts u ds f r st)"
  shows "P (db (snd (ms_log_activity cfg bn e action path sz w)))"
proof (cases "acquire_write_lock w")
  case (Pair ok w1)
  then have d1: "db w1 = db w" by (simp add: acquire_db)
  show ?thesis
  proof (cases ok)
    case False
    with Pair d1 P show ?thesis
      by (simp add: ms_log_activity_def Let_def)
  next
    case True
    let ?risk = "ms_assess_risk_level cfg path action"
    let ?w2 = "w1\<lparr>db := insert_activity (timestamp e) (username e) (process_name e)
                 (process_id e) action path sz ?risk (db w1)\<rparr>"
    have p2: "P (db ?w2)"
      using P d1 by (simp add: act)
    show ?thesis
    proof (cases "?risk = High")
      case False
      with Pair True send_signal_keeps [of P ?w2, OF p2 sig] show ?thesis
        by (simp add: ms_log_activity_def Let_def)
    next
      case High: True
      let ?ds = "''High-risk '' @ lower action @ '' operation detected''"
      let ?w3 = "?w2\<lparr>db := insert_alert (timestamp e) (username e) ?ds path High (db ?w2)\<rparr>"
      let ?sent = "send_signal ''new_alert''
                    (JObject [(''description'', JString ?ds),
                              (''file_path'', JString path),
                              (''risk_level'', JString ''High''),
                              (''timestamp'', JString (timestamp e))])
                    (alert_signal_time e) (hold_write_lock ?w3)"
      have p3: "P (db ?w3)"
        using p2 by (simp add: alr)
      have p3': "P (db (hold_write_lock ?w3))"
        using p3 by (simp add: hold_write_lock_def)
      have p4: "P (db (snd ?sent))"
        by (rule send_signal_keeps [of P "hold_write_lock ?w3", OF p3' sig])
      obtain r w4 where s: "?sent = (r, w4)" by (cases ?sent)
      with p4 have p4': "P (db w4)" by simp
      show ?thesis
      proof (cases r)
        case (Inl err)
        with Pair True High s P d1 show ?thesis
          by (simp add: ms_log_activity_def Let_def)
      next
        case (Inr u)
        with Pair True High s send_signal_keeps [of P w4, OF p4' sig] show ?thesis
          by (simp add: ms_log_activity_def Let_def)
      qed
    qed
  qed
qed

lemma ms_dispatch_keeps:
  assumes "P (db w)"
    and "\<And>t d n st. P st \<Longrightarrow> P (insert_signal t d n st)"
    and "\<And>ts u pn pid a f sz r st. P st \<Longrightarrow> P (insert_activity ts u pn pid a f sz r st)"
    and "\<And>ts u ds f r st. P st \<Longrightarrow> P (insert_alert ts u ds f r st)"
  shows "P (db (snd (ms_dispatch svc e kind event w)))"
  using assms(1) ms_log_activity_keeps [of P w, OF assms]
  by (cases kind)
     (simp_all add: ms_dispatch_def dispatch_def on_created_def on_modified_def on_deleted_def
       on_moved_def Let_def)

lemma step_keeps:
  assumes "P (db w)"
    and "\<And>t d n st. P st \<Longrightarrow> P (insert_signal t d n st)"
    and "\<And>ts u pn pid a f sz r st. P st \<Longrightarrow> P (insert_activity ts u pn pid a f sz r st)"
    and "\<And>ts u ds f r st. P st \<Longrightarrow> P (insert_alert ts u ds f r st)"
    and "\<And>s n ps st. P st \<Longrightarrow> P (replace_service_status s n ps st)"
    and "\<And>s a st. P st \<Longrightarrow> P (update_alert_status s a st)"
    and "\<And>ids st. P st \<Longrightarrow> P (mark_processed ids st)"
  shows "P (db (snd (step svc x w)))"
proof (cases x)
  case (Tick s n)
  then show ?thesis
    using update_service_status_keeps [of P w, OF assms(1) assms(5)] by (simp add: step_def)
next
  case (Send t d n)
  then show ?thesis
    using send_signal_keeps [of P w, OF assms(1) assms(2)] by (simp add: step_def)
next
  case (Log e a f sz)
  then show ?thesis
    using ms_log_activity_keeps [of P w, OF assms(1) assms(2) assms(3) assms(4)]
    by (simp add: step_def)
next
  case (Event e k ev)
  then show ?thesis
    using ms_dispatch_keeps [of P w, OF assms(1) assms(2) assms(3) assms(4)]
    by (simp add: step_def)
next
  case Consume
  then show ?thesis
    using get_live_signals_keeps [of P w, OF assms(1) assms(7)] by (simp add: step_def)
next
  case (AlertAction aid a)
  then show ?thesis
    using api_alert_action_keeps [of P w, OF assms(1) assms(6)] by (simp add: step_def)
qed

lemma run_Cons_snd: "snd (run svc (x # xs) w) = snd (run svc xs (snd (step svc x w)))"
  by (simp split: prod.splits)

lemma run_Cons_fst:
  "fst (run svc (x # xs) w) = fst (step svc x w) @ fst (run svc xs (snd (step svc x w)))"
  by (simp split: prod.splits)

lemma run_keeps:
  assumes "P (db w)"
    and "\<And>t d n st. P st \<Longrightarrow> P (insert_signal t d n st)"
    and "\<And>ts u pn pid a f sz r st. P st \<Longrightarrow> P (insert_activity ts u pn pid a f sz r st)"
    and "\<And>ts u ds f r st. P st \<Longrightarrow> P (insert_alert ts u ds f r st)"
    and "\<And>s n ps st. P st \<Longrightarrow> P (replace_service_status s n ps st)"
    and "\<And>s a st. P st \<Longrightarrow> P (update_alert_status s a st)"
    and "\<And>ids st. P st \<Longrightarrow> P (mark_processed ids st)"
  shows "P (db (snd (run svc ops w)))"
  using assms(1)
proof (induction ops arbitrary: w)
  case Nil
  then show ?case by simp
next
  case (Cons x xs)
  have "P (db (snd (step svc x w)))"
    by (rule step_keeps [of P, OF Cons.prems assms(2-7)])
  from Cons.IH [OF this] show ?case
    by (simp only: run_Cons_snd)
qed


section \<open>Signal consumption\<close>

text \<open>
  C5. The consumer does not return the unprocessed rows in every call: when more rows
  are unprocessed than the library accepts parameters in one statement, the UPDATE that
  is to mark them is refused, the call returns the empty list and marks nothing. The
  store is unchanged, so the next call meets the same rows and does the same.
\<close>

theorem consume_beyond_variable_limit:
  assumes "db_file_exists w"
    and "variable_limit w < length (filter (\<lambda>r. \<not> processed r) (live_signals (db w)))"
  shows "get_live_signals w = ([], w)"
  using assms by (auto simp: get_live_signals_def Let_def)

lemma flooded_world_unprocessed:
  "length (filter (\<lambda>r. \<not> processed r) (live_signals (db flooded_world))) = 32767"
proof -
  have "filter (\<lambda>r. \<not> processed r) (live_signals (db flooded_world))
      = live_signals (db flooded_world)"
    by (simp add: flooded_world_def idle_world_def empty_store_def filter_id_conv
        del: upt_rec_numeral)
  then show ?thesis
    by (simp add: flooded_world_def idle_world_def empty_store_def del: upt_rec_numeral)
qed

theorem consume_beyond_variable_limit_witness:
  "db_file_exists flooded_world
   \<and> variable_limit flooded_world = 32766
   \<and> length (filter (\<lambda>r. \<not> processed r) (live_signals (db flooded_world))) = 32767
   \<and> get_live_signals flooded_world = ([], flooded_world)"
proof -
  have e: "db_file_exists flooded_world" and l: "variable_limit flooded_world = 32766"
    by (simp_all add: flooded_world_def idle_world_def)
  have over: "variable_limit flooded_world
      < length (filter (\<lambda>r. \<not> processed r) (live_signals (db flooded_world)))"
    by (simp add: l flooded_world_unprocessed)
  from consume_beyond_variable_limit [OF e over] e l flooded_world_unprocessed
  show ?thesis by simp
qed

text \<open>
  Up to that number of unprocessed rows, with the database present and the write lock
  got, the call does what the claim says: it returns one message for each unprocessed
  row, carrying the row's id, type, payload and timestamp, in ascending order of
  timestamp, and sets \<open>processed\<close> on the rows whose id it returned and on no other.
\<close>

lemma consume_within_variable_limit:
  assumes "db_file_exists w" and "True \<notin> set (lock_busy w)"
    and "length (filter (\<lambda>r. \<not> processed r) (live_signals (db w))) \<le> variable_limit w"
  shows "mset (fst (get_live_signals w))
           = mset (map (\<lambda>r. \<lparr> msg_id = sig_id r, msg_signal_type = sig_type r,
                                msg_data = sig_data r, msg_timestamp = sig_timestamp r \<rparr>)
                     (filter (\<lambda>r. \<not> processed r) (live_signals (db w))))
   \<and> sorted (map msg_timestamp (fst (get_live_signals w)))
   \<and> live_signals (db (snd (get_live_signals w)))
        = map (\<lambda>r. if sig_id r \<in> msg_id ` set (fst (get_live_signals w))
                    then r\<lparr>processed := True\<rparr> else r)
            (live_signals (db w))"
proof -
  let ?rows = "sort_key sig_timestamp (filter (\<lambda>r. \<not> processed r) (live_signals (db w)))"
  have fits: "\<not> variable_limit w < length (map sig_id ?rows)"
    using assms(3) by simp
  have res: "fst (get_live_signals w) = map signal_msg_of ?rows"
    using assms(1,2) fits by (auto simp: get_live_signals_def Let_def acquire_free)
  have ids: "msg_id ` set (map signal_msg_of ?rows) = set (map sig_id ?rows)"
    by (simp add: image_image)
  have upd: "live_signals (db (snd (get_live_signals w)))
        = map (\<lambda>r. if sig_id r \<in> set (map sig_id ?rows) then r\<lparr>processed := True\<rparr> else r)
            (live_signals (db w))"
  proof (cases "map sig_id ?rows = []")
    case True
    then have "length ?rows = 0" by simp
    then have "filter (\<lambda>r. \<not> processed r) (live_signals (db w)) = []"
      by (simp only: length_sort length_0_conv)
    then have "\<forall>r\<in>set (live_signals (db w)). processed r"
      by (simp add: filter_empty_conv)
    then have "map (\<lambda>r. if sig_id r \<in> set (map sig_id ?rows) then r\<lparr>processed := True\<rparr> else r)
            (live_signals (db w)) = live_signals (db w)"
      by (simp add: map_idI)
    with True show ?thesis using assms(1,2) by (simp add: get_live_signals_def Let_def)
  next
    case False
    then show ?thesis using assms(1,2) fits
      by (simp add: get_live_signals_def Let_def acquire_free mark_processed_def)
  qed
  have m: "mset (map signal_msg_of ?rows)
      = mset (map (\<lambda>r. \<lparr> msg_id = sig_id r, msg_signal_type = sig_type r,
                           msg_data = sig_data r, msg_timestamp = sig_timestamp r \<rparr>)
                (filter (\<lambda>r. \<not> processed r) (live_signals (db w))))"
    by (simp add: signal_msg_of_def [abs_def])
  have s: "sorted (map msg_timestamp (map signal_msg_of ?rows))"
    by (simp add: comp_def)
  show ?thesis
    unfolding res ids using m s upd by simp
qed

section \<open>The processed flag only rises\<close>

lemma fold_max_mono: "s \<le> fold max ids (s::nat)"
  by (induction ids arbitrary: s) (auto intro: order_trans [OF max.cobounded2])

lemma fold_max_ge: "x \<in> set ids \<Longrightarrow> x \<le> fold max ids (s::nat)"
proof (induction ids arbitrary: s)
  case Nil
  then show ?case by simp
next
  case (Cons a ids)
  then show ?case
    by (auto intro: order_trans [OF max.cobounded1 fold_max_mono])
qed

lemma next_rowid_fresh: "x \<in> set ids \<Longrightarrow> x < next_rowid s ids"
  by (simp add: next_rowid_def fold_max_ge less_Suc_eq_le)

lemma marked_insert_signal: "marked i st \<Longrightarrow> marked i (insert_signal t d n st)"
proof -
  assume m: "marked i st"
  then have "i \<in> set (map sig_id (live_signals st))"
    by (auto simp: marked_def list_ex_iff)
  then have "i \<noteq> next_rowid (seq_live_signals st) (map sig_id (live_signals st))"
    using next_rowid_fresh by blast
  with m show ?thesis
    by (auto simp: marked_def insert_signal_def Let_def list_ex_iff list_all_iff)
qed

lemma marked_other_tables:
  "marked i st \<Longrightarrow> marked i (insert_activity ts u pn pid a f sz r st)"
  "marked i st \<Longrightarrow> marked i (insert_alert ts u ds f r' st)"
  "marked i st \<Longrightarrow> marked i (replace_service_status s n ps st)"
  "marked i st \<Longrightarrow> marked i (update_alert_status s' aid st)"
  by (simp_all add: marked_def insert_activity_def insert_alert_def
      replace_service_status_def update_alert_status_def Let_def)

lemma mark_processed_rows:
  "live_signals (mark_processed ids st)
     = map (\<lambda>r. if sig_id r \<in> set ids then r\<lparr>processed := True\<rparr> else r) (live_signals st)"
  by (simp add: mark_processed_def)

lemma mark_processed_ids:
  "sig_id ` set (live_signals (mark_processed ids st)) = sig_id ` set (live_signals st)"
proof -
  have "map sig_id (live_signals (mark_processed ids st)) = map sig_id (live_signals st)"
    unfolding mark_processed_rows by (induction "live_signals st") auto
  then have "set (map sig_id (live_signals (mark_processed ids st)))
      = set (map sig_id (live_signals st))" by simp
  then show ?thesis by simp
qed

lemma mark_processed_flag:
  assumes "x \<in> set (live_signals (mark_processed ids st))"
  obtains y where "y \<in> set (live_signals st)" and "sig_id y = sig_id x"
    and "processed x = (processed y \<or> sig_id y \<in> set ids)"
proof -
  from assms obtain y where y: "y \<in> set (live_signals st)"
    and x: "x = (if sig_id y \<in> set ids then y\<lparr>processed := True\<rparr> else y)"
    unfolding mark_processed_rows by auto
  from x have "sig_id y = sig_id x" "processed x = (processed y \<or> sig_id y \<in> set ids)"
    by (simp_all split: if_splits)
  with y show ?thesis using that by blast
qed

lemma marked_iff:
  "marked i st \<longleftrightarrow>
     i \<in> sig_id ` set (live_signals st)
     \<and> (\<forall>r \<in> set (live_signals st). sig_id r = i \<longrightarrow> processed r)"
  by (auto simp: marked_def list_ex_iff list_all_iff)

lemma marked_mark_processed: "marked i st \<Longrightarrow> marked i (mark_processed ids st)"
  unfolding marked_iff mark_processed_ids
  by (auto elim!: mark_processed_flag)

lemma mark_processed_marks:
  "i \<in> set ids \<Longrightarrow> i \<in> sig_id ` set (live_signals st) \<Longrightarrow> marked i (mark_processed ids st)"
  unfolding marked_iff mark_processed_ids
  by (auto elim!: mark_processed_flag)

lemma step_marked:
  "marked i (db w) \<Longrightarrow> marked i (db (snd (step svc x w)))"
  by (rule step_keeps [of "marked i"])
     (simp_all add: marked_insert_signal marked_other_tables marked_mark_processed)

lemma run_marked:
  "marked i (db w) \<Longrightarrow> marked i (db (snd (run svc ops w)))"
  by (rule run_keeps [of "marked i"])
     (simp_all add: marked_insert_signal marked_other_tables marked_mark_processed)

lemma get_live_signals_subset:
  "set (fst (get_live_signals w))
     \<subseteq> signal_msg_of ` {r \<in> set (live_signals (db w)). \<not> processed r}"
  by (cases "acquire_write_lock w")
     (auto simp: get_live_signals_def Let_def split: bool.splits if_splits)

lemma get_live_signals_skips_marked:
  assumes "marked i (db w)"
  shows "i \<notin> msg_id ` set (fst (get_live_signals w))"
proof
  assume "i \<in> msg_id ` set (fst (get_live_signals w))"
  with get_live_signals_subset [of w]
  obtain r where "r \<in> set (live_signals (db w))" "\<not> processed r" "sig_id r = i"
    by auto
  with assms show False by (auto simp: marked_iff)
qed

lemma get_live_signals_marks:
  assumes "i \<in> msg_id ` set (fst (get_live_signals w))"
  shows "marked i (db (snd (get_live_signals w)))"
proof -
  let ?rows = "sort_key sig_timestamp (filter (\<lambda>r. \<not> processed r) (live_signals (db w)))"
  from assms have ex: "db_file_exists w" and ne: "map sig_id ?rows \<noteq> []"
    and fits: "\<not> variable_limit w < length (map sig_id ?rows)"
    by (auto simp: get_live_signals_def Let_def split: if_splits)
  obtain ok w' where a: "acquire_write_lock w = (ok, w')" by (cases "acquire_write_lock w")
  with assms ex ne fits have ok: ok
    by (cases ok) (auto simp: get_live_signals_def Let_def)
  from a have d: "db w' = db w" by (simp add: acquire_db)
  have f: "fst (get_live_signals w) = map signal_msg_of ?rows"
    using ex ne fits a ok by (simp add: get_live_signals_def Let_def)
  from assms have i: "i \<in> sig_id ` set ?rows"
    unfolding f by (simp add: image_image)
  then have i1: "i \<in> set (map sig_id ?rows)" by simp
  from i have i2: "i \<in> sig_id ` set (live_signals (db w))"
    by auto
  have s: "db (snd (get_live_signals w)) = mark_processed (map sig_id ?rows) (db w)"
    using ex ne fits a ok d by (simp add: get_live_signals_def Let_def)
  show ?thesis
    unfolding s by (rule mark_processed_marks [OF i1 i2])
qed

lemma step_skips_marked:
  "marked i (db w) \<Longrightarrow> i \<notin> msg_id ` set (fst (step svc x w))"
  by (cases x) (simp_all add: step_def get_live_signals_skips_marked)

lemma run_skips_marked:
  "marked i (db w) \<Longrightarrow> i \<notin> msg_id ` set (fst (run svc ops w))"
proof (induction ops arbitrary: w)
  case Nil
  then show ?case by simp
next
  case (Cons x xs)
  from Cons.IH [OF step_marked [OF Cons.prems, of svc x]] step_skips_marked [OF Cons.prems, of svc x]
  show ?case
    by (simp only: run_Cons_fst set_append image_Un) blast
qed

text \<open>
  C6. Once a signal id is marked, be it in the state at hand or by the consumer call that
  has just returned it, it stays marked along every history of operations on the store
  (heartbeats, signal appends, logged activities, dispatched events, consumer reads, alert
  actions): a row with that id is still there, every row with that id still has
  \<open>processed\<close> set, and no consumer read of the history returns the id.
\<close>

theorem processed_is_monotonic:
  assumes "marked i (db w)
     \<or> (i \<in> msg_id ` set (fst (get_live_signals w0)) \<and> w = snd (get_live_signals w0))"
  shows "marked i (db (snd (run svc ops w))) \<and> i \<notin> msg_id ` set (fst (run svc ops w))"
proof -
  from assms have "marked i (db w)"
    using get_live_signals_marks by blast
  then show ?thesis
    by (simp add: run_marked run_skips_marked)
qed

theorem processed_is_monotonic_witness:
  "marked 3 (db queued_world)
   \<and> marked 3 (db (snd (run sample_service
         [Send ''new_activity'' (JString ''x'') 12, Consume, Consume] queued_world)))
   \<and> 3 \<notin> msg_id ` set (fst (run sample_service
         [Send ''new_activity'' (JString ''x'') 12, Consume, Consume] queued_world))"
proof -
  have m: "marked 3 (db queued_world)"
    by (simp add: marked_def queued_world_def idle_world_def empty_store_def)
  from processed_is_monotonic [OF disjI1, OF m, of sample_service
      "[Send ''new_activity'' (JString ''x'') 12, Consume, Consume]"] m
  show ?thesis by simp
qed

section \<open>The heartbeat\<close>









section \<open>The description of an alert\<close>

text \<open>
  C8 (as amended). For a High-risk event that \<open>FileActivityMonitor.log_activity\<close> logs,
  the alert is described as
  \<open>High-risk <action in lower case> operation detected on <basename of the path>\<close>;
  the path itself is in the alert's \<open>file_path\<close> column.
\<close>

theorem alert_description_text:
  assumes "True \<notin> set (lock_busy w)" and "\<not> fam_should_ignore_file path"
    and "fam_assess_risk_level path action = High"
  shows "\<exists>al. alerts (db (snd (fam_log_activity bn e action path sz w)))
                  = alerts (db w) @ [al]
              \<and> alert_description al
                  = ''High-risk '' @ lower action @ '' operation detected on '' @ bn path
              \<and> alert_file_path al = path"
  using assms
  by (simp add: fam_log_activity_def Let_def acquire_free insert_activity_def insert_alert_def)

lemma evil_sys_facts:
  "\<not> fam_should_ignore_file evil_sys"
  "fam_assess_risk_level evil_sys ''DELETE'' = High"
  "ntpath_basename evil_sys = ''evil.sys''"
  "lower ''DELETE'' = ''delete''"
  by code_simp+

theorem alert_description_text_witness:
  "True \<notin> set (lock_busy idle_world)
   \<and> \<not> fam_should_ignore_file evil_sys
   \<and> fam_assess_risk_level evil_sys ''DELETE'' = High
   \<and> map alert_description (alerts (db (snd (fam_log_activity ntpath_basename sample_env
          ''DELETE'' evil_sys 0 idle_world))))
       = [''High-risk delete operation detected on evil.sys'']
   \<and> map alert_file_path (alerts (db (snd (fam_log_activity ntpath_basename sample_env
          ''DELETE'' evil_sys 0 idle_world))))
       = [evil_sys]"
proof -
  have free: "True \<notin> set (lock_busy idle_world)"
    by (simp add: idle_world_def)
  have none: "alerts (db idle_world) = []"
    by (simp add: idle_world_def empty_store_def)
  from alert_description_text [OF free evil_sys_facts(1) evil_sys_facts(2),
      of ntpath_basename sample_env 0] none
  show ?thesis using free evil_sys_facts by auto
qed

text \<open>
  C8 as stated fails: for DELETE on \<open>C:\Windows\System32\drivers\evil.sys\<close> the alert
  is described as \<open>High-risk delete operation detected on evil.sys\<close>, which is not
  \<open>High-risk delete operation detected on <path>\<close> and in which the path does not occur.
\<close>

theorem alert_description_counterexample:
  "map alert_description (alerts (db (snd (fam_log_activity ntpath_basename sample_env
          ''DELETE'' evil_sys 0 idle_world))))
       = [''High-risk delete operation detected on evil.sys'']
   \<and> ''High-risk delete operation detected on evil.sys''
       \<noteq> ''High-risk delete operation detected on '' @ evil_sys
   \<and> \<not> str_in evil_sys ''High-risk delete operation detected on evil.sys''"
proof -
  have "map alert_description (alerts (db (snd (fam_log_activity ntpath_basename sample_env
          ''DELETE'' evil_sys 0 idle_world))))
       = [''High-risk delete operation detected on evil.sys'']"
    by (simp add: fam_log_activity_def evil_sys_facts Let_def acquire_write_lock_def
        idle_world_def empty_store_def insert_activity_def insert_alert_def)
  moreover have "\<not> str_in evil_sys ''High-risk delete operation detected on evil.sys''"
    by code_simp
  moreover have "''High-risk delete operation detected on evil.sys''
       \<noteq> ''High-risk delete operation detected on '' @ evil_sys"
    by (simp add: evil_sys_def bsl_def)
  ultimately show ?thesis by simp
qed

section \<open>Alert actions\<close>

text \<open>
  C9 (as amended). Through \<open>api_alert_action\<close> (database present, write lock free)
  acknowledge, resolve, dismiss and investigate set the status of the alert with the
  given id to Acknowledged, Resolved, Dismissed and Under Investigation, from whatever
  status it had; the result reports success, and every alert row stays, changed in its
  status field only. The routes of app.py set Acknowledged and Resolved in the same way,
  but its dismiss route deletes the alert row.
\<close>

theorem alert_action_sets_status:
  assumes "db_file_exists w" and "True \<notin> set (lock_busy w)"
  shows "status_map = [(''acknowledge'', Acknowledged), (''resolve'', Resolved),
                       (''dismiss'', Dismissed), (''investigate'', UnderInvestigation)]
     \<and> ((action, s) \<in> set status_map \<longrightarrow>
          new_status (fst (api_alert_action aid action w)) = Some s
        \<and> success (fst (api_alert_action aid action w))
        \<and> alerts (db (snd (api_alert_action aid action w)))
            = map (\<lambda>a. if alert_id a = aid then a\<lparr>alert_status := s\<rparr> else a) (alerts (db w)))
     \<and> alerts (db (snd (acknowledge_alert aid w)))
         = map (\<lambda>a. if alert_id a = aid then a\<lparr>alert_status := Acknowledged\<rparr> else a)
             (alerts (db w))
     \<and> alerts (db (snd (resolve_alert aid w)))
         = map (\<lambda>a. if alert_id a = aid then a\<lparr>alert_status := Resolved\<rparr> else a)
             (alerts (db w))
     \<and> alerts (db (snd (dismiss_alert aid w)))
         = filter (\<lambda>a. alert_id a \<noteq> aid) (alerts (db w))"
  using assms
  by (auto simp: status_map_def api_alert_action_def acknowledge_alert_def resolve_alert_def
      dismiss_alert_def acquire_free update_alert_status_def delete_alert_def Let_def)

theorem alert_action_sets_status_witness:
  "db_file_exists alerted_world \<and> True \<notin> set (lock_busy alerted_world)
   \<and> (''investigate'', UnderInvestigation) \<in> set status_map
   \<and> map alert_status (alerts (db alerted_world)) = [Resolved]
   \<and> map alert_status (alerts (db (snd (api_alert_action 1 ''investigate'' alerted_world))))
       = [UnderInvestigation]"
proof -
  have e: "db_file_exists alerted_world" and f: "True \<notin> set (lock_busy alerted_world)"
    by (simp_all add: alerted_world_def idle_world_def)
  have m: "(''investigate'', UnderInvestigation) \<in> set status_map"
    by (simp add: status_map_def)
  have a: "map alert_id (alerts (db alerted_world)) = [1]"
      "map alert_status (alerts (db alerted_world)) = [Resolved]"
    by (simp_all add: alerted_world_def idle_world_def empty_store_def)
  from alert_action_sets_status [OF e f, of "''investigate''" UnderInvestigation 1] m
  have "alerts (db (snd (api_alert_action 1 ''investigate'' alerted_world)))
            = map (\<lambda>a. if alert_id a = 1 then a\<lparr>alert_status := UnderInvestigation\<rparr> else a)
                (alerts (db alerted_world))"
    by simp
  then have "map alert_status (alerts (db (snd (api_alert_action 1 ''investigate'' alerted_world))))
       = [UnderInvestigation]"
    by (simp add: alerted_world_def idle_world_def empty_store_def)
  with e f m a show ?thesis by simp
qed

text \<open>
  C9 as stated fails: the dismiss route of app.py reports success and the alert row is
  gone, not kept with status Dismissed.
\<close>

theorem alert_action_counterexample:
  "alerts (db alerted_world) \<noteq> []
   \<and> fst (dismiss_alert 1 alerted_world) = True
   \<and> alerts (db (snd (dismiss_alert 1 alerted_world))) = []"
  by (simp add: dismiss_alert_def delete_alert_def acquire_write_lock_def alerted_world_def
      idle_world_def empty_store_def)

text \<open>
  C10. An action string outside acknowledge, resolve, dismiss, investigate is not
  rejected by \<open>api_alert_action\<close>: with the database present and the write lock free it
  reports success with new status New and sets the status of the alert with the given id
  to New, whatever that status was.
\<close>

theorem unknown_action_resets_to_new:
  assumes "db_file_exists w" and "True \<notin> set (lock_busy w)"
    and "action \<notin> {''acknowledge'', ''resolve'', ''dismiss'', ''investigate''}"
  shows "fst (api_alert_action aid action w)
           = \<lparr> success = True, message = ''Alert '' @ action @ ''d successfully'',
               new_status = Some New \<rparr>
     \<and> alerts (db (snd (api_alert_action aid action w)))
         = map (\<lambda>a. if alert_id a = aid then a\<lparr>alert_status := New\<rparr> else a) (alerts (db w))"
  using assms
  by (simp add: status_map_def api_alert_action_def acquire_free update_alert_status_def Let_def)

theorem unknown_action_resets_to_new_witness:
  "db_file_exists alerted_world \<and> True \<notin> set (lock_busy alerted_world)
   \<and> ''reopen'' \<notin> {''acknowledge'', ''resolve'', ''dismiss'', ''investigate''}
   \<and> map alert_status (alerts (db alerted_world)) = [Resolved]
   \<and> success (fst (api_alert_action 1 ''reopen'' alerted_world))
   \<and> map alert_status (alerts (db (snd (api_alert_action 1 ''reopen'' alerted_world)))) = [New]"
proof -
  have e: "db_file_exists alerted_world" and f: "True \<notin> set (lock_busy alerted_world)"
    by (simp_all add: alerted_world_def idle_world_def)
  have n: "''reopen'' \<notin> {''acknowledge'', ''resolve'', ''dismiss'', ''investigate''}"
    by simp
  have a: "map alert_status (alerts (db alerted_world)) = [Resolved]"
    by (simp add: alerted_world_def idle_world_def empty_store_def)
  from unknown_action_resets_to_new [OF e f n, of 1]
  have r: "success (fst (api_alert_action 1 ''reopen'' alerted_world))"
    and u: "alerts (db (snd (api_alert_action 1 ''reopen'' alerted_world)))
         = map (\<lambda>a. if alert_id a = 1 then a\<lparr>alert_status := New\<rparr> else a)
             (alerts (db alerted_world))"
    by simp_all
  from u have "map alert_status (alerts (db (snd (api_alert_action 1 ''reopen'' alerted_world))))
      = [New]"
    by (simp add: alerted_world_def idle_world_def empty_store_def)
  with e f n a r show ?thesis by simp
qed

end
